theory Spec2Isabelle
  imports Main "HOL-Library.Word" "HOL-Library.Sublist"
begin

section \<open>The file upload server (file\_server/server.py)\<close>

text \<open>
  A Python \<open>str\<close> is modelled as a \<open>string\<close> whose characters are the code points
  below 256. Bytes of a file are \<open>8 word\<close>s. The file system is a map from paths to
  nodes; every library call that can raise takes its outcome from an explicit
  description of the environment, so that each \<open>except\<close> branch of the source is a
  branch of the model.
\<close>

subsection \<open>Configuration\<close>

definition UPLOAD_FOLDER :: string where
  "UPLOAD_FOLDER = ''uploads''"

definition MAX_FILE_SIZE :: nat where
  "MAX_FILE_SIZE = 16 * 1024 * 1024"

definition ALLOWED_EXTENSIONS :: "string set" where
  "ALLOWED_EXTENSIONS =
     {''txt'', ''pdf'', ''png'', ''jpg'', ''jpeg'', ''gif'', ''doc'', ''docx'', ''zip''}"

text \<open>\<open>app.config['MAX_CONTENT_LENGTH'] = MAX_FILE_SIZE\<close>: the cap that the framework
  applies to the declared length of a request body. A request above it is not decoded:
  the first access to \<open>request.files\<close> raises \<open>RequestEntityTooLarge\<close>, which the
  framework answers with status 413.\<close>

definition MAX_CONTENT_LENGTH :: nat where
  "MAX_CONTENT_LENGTH = MAX_FILE_SIZE"

subsection \<open>String operations of the Python library\<close>

text \<open>\<open>str.lower\<close> on the code points below 256: the letters \<open>A\<close> to \<open>Z\<close> and the
  upper-case letters of the range \<open>0xC0\<close> to \<open>0xDE\<close> (all but the multiplication sign
  \<open>0xD7\<close>) move up by 32; every other character is unchanged.\<close>

definition lower_char :: "char \<Rightarrow> char" where
  "lower_char c =
     (let n = (of_char c :: nat)
      in if (65 \<le> n \<and> n \<le> 90) \<or> (192 \<le> n \<and> n \<le> 222 \<and> n \<noteq> 215)
         then char_of (n + 32) else c)"

definition lower :: "string \<Rightarrow> string" where
  "lower s = map lower_char s"

text \<open>\<open>s.rfind(c)\<close>: the highest index of \<open>c\<close> in \<open>s\<close>, or \<open>-1\<close>.\<close>

definition rfind :: "string \<Rightarrow> char \<Rightarrow> int" where
  "rfind s c =
     (if c \<in> set s
      then int (length s - 1 - length (takeWhile (\<lambda>x. x \<noteq> c) (rev s)))
      else - 1)"

text \<open>\<open>s.rsplit(sep, 1)\<close>: at most one split, at the last separator.\<close>

definition rsplit1 :: "string \<Rightarrow> char \<Rightarrow> string list" where
  "rsplit1 s sep =
     (let i = rfind s sep
      in if i < 0 then [s] else [take (nat i) s, drop (nat i + 1) s])"

text \<open>\<open>s.split()\<close>: the maximal runs of characters that are not white space. After the
  ASCII encoding of \<open>secure_filename\<close> the white space of \<open>str.split\<close> is the characters
  9 to 13, 28 to 32.\<close>

definition is_space :: "char \<Rightarrow> bool" where
  "is_space c =
     (let n = (of_char c :: nat) in (9 \<le> n \<and> n \<le> 13) \<or> (28 \<le> n \<and> n \<le> 32))"

fun split_ws :: "string \<Rightarrow> string \<Rightarrow> string list" where
  "split_ws cur [] = (if cur = [] then [] else [cur])"
| "split_ws cur (x # xs) =
     (if is_space x
      then (if cur = [] then split_ws [] xs else cur # split_ws [] xs)
      else split_ws (cur @ [x]) xs)"

text \<open>\<open>sep.join(words)\<close>.\<close>

fun join :: "string \<Rightarrow> string list \<Rightarrow> string" where
  "join sep [] = []"
| "join sep [w] = w"
| "join sep (w # ws) = w @ sep @ join sep ws"

text \<open>\<open>s.replace(a, b)\<close> for single characters.\<close>

definition replace_char :: "char \<Rightarrow> char \<Rightarrow> string \<Rightarrow> string" where
  "replace_char a b s = map (\<lambda>c. if c = a then b else c) s"

text \<open>\<open>s.strip(chars)\<close>.\<close>

definition strip :: "string \<Rightarrow> string \<Rightarrow> string" where
  "strip chars s =
     rev (dropWhile (\<lambda>c. c \<in> set chars) (rev (dropWhile (\<lambda>c. c \<in> set chars) s)))"

subsection \<open>\<open>allowed_file\<close>\<close>

definition allowed_file :: "string \<Rightarrow> bool" where
  "allowed_file filename =
     (CHR ''.'' \<in> set filename \<and>
      lower (rsplit1 filename CHR ''.'' ! 1) \<in> ALLOWED_EXTENSIONS)"

subsection \<open>\<open>werkzeug.utils.secure_filename\<close> on a POSIX system\<close>

text \<open>
  \<open>unicodedata.normalize("NFKD", filename).encode("ascii", "ignore")\<close> replaces every
  character by its compatibility decomposition and drops what is not ASCII. The
  decomposition table of Unicode is the parameter \<open>decomp\<close>, which gives the
  decomposition of one character. The separator replaced by a space is \<open>/\<close>
  (\<open>os.path.altsep\<close> is \<open>None\<close>), and the branch for the device names of Windows
  is not taken.
\<close>

definition is_ascii :: "char \<Rightarrow> bool" where
  "is_ascii c = ((of_char c :: nat) < 128)"

definition ascii_fold :: "(char \<Rightarrow> string) \<Rightarrow> string \<Rightarrow> string" where
  "ascii_fold decomp s = filter is_ascii (concat (map decomp s))"

text \<open>The characters kept by the pattern \<open>[^A-Za-z0-9_.-]\<close>.\<close>

definition safe_char :: "char \<Rightarrow> bool" where
  "safe_char c =
     (let n = (of_char c :: nat)
      in (65 \<le> n \<and> n \<le> 90) \<or> (97 \<le> n \<and> n \<le> 122) \<or> (48 \<le> n \<and> n \<le> 57)
         \<or> c = CHR ''_'' \<or> c = CHR ''.'' \<or> c = CHR ''-'')"

definition secure_filename :: "(char \<Rightarrow> string) \<Rightarrow> string \<Rightarrow> string" where
  "secure_filename decomp filename =
     (let filename = ascii_fold decomp filename;
          filename = replace_char CHR ''/'' CHR '' '' filename
      in strip ''._'' (filter safe_char (join ''_'' (split_ws [] filename))))"

subsection \<open>\<open>os.path.splitext\<close> and \<open>os.path.join\<close> (posixpath)\<close>

function skip_dots :: "string \<Rightarrow> nat \<Rightarrow> nat \<Rightarrow> (string \<times> string) option" where
  "skip_dots p filenameIndex dotIndex =
     (if filenameIndex < dotIndex
      then (if p ! filenameIndex \<noteq> CHR ''.''
            then Some (take dotIndex p, drop dotIndex p)
            else skip_dots p (filenameIndex + 1) dotIndex)
      else None)"
  by pat_completeness auto
termination
  by (relation "measure (\<lambda>(p, i, d). d - i)") auto

definition splitext :: "string \<Rightarrow> string \<times> string" where
  "splitext p =
     (let sepIndex = rfind p CHR ''/'';
          dotIndex = rfind p CHR ''.''
      in if dotIndex > sepIndex
         then (case skip_dots p (nat (sepIndex + 1)) (nat dotIndex) of
                 Some r \<Rightarrow> r
               | None \<Rightarrow> (p, []))
         else (p, []))"

definition path_join :: "string \<Rightarrow> string \<Rightarrow> string" where
  "path_join a b =
     (if b \<noteq> [] \<and> hd b = CHR ''/'' then b
      else if a = [] \<or> last a = CHR ''/'' then a @ b
      else a @ ''/'' @ b)"

subsection \<open>\<open>datetime.strftime\<close>\<close>

record datetime =
  year :: nat
  month :: nat
  day :: nat
  hour :: nat
  minute :: nat
  second :: nat
  microsecond :: nat

definition digit :: "nat \<Rightarrow> char" where
  "digit d = char_of (48 + d)"

function dec :: "nat \<Rightarrow> string" where
  "dec n = (if n < 10 then [digit n] else dec (n div 10) @ [digit (n mod 10)])"
  by pat_completeness auto
termination
  by (relation "measure id") auto

definition zfill :: "nat \<Rightarrow> string \<Rightarrow> string" where
  "zfill w s = replicate (w - length s) CHR ''0'' @ s"

text \<open>\<open>'%Y%m%d_%H%M%S'\<close>: the fields as zero-padded decimals. (The C library pads
  \<open>%Y\<close> differently for years below 1000; the properties below are stated for
  four-digit years.)\<close>

definition strftime :: "datetime \<Rightarrow> string" where
  "strftime t =
     zfill 4 (dec (year t)) @ zfill 2 (dec (month t)) @ zfill 2 (dec (day t)) @ ''_'' @
     zfill 2 (dec (hour t)) @ zfill 2 (dec (minute t)) @ zfill 2 (dec (second t))"

text \<open>\<open>'%Y-%m-%d %H:%M:%S'\<close>, the format of the listing.\<close>

definition strftime_listing :: "datetime \<Rightarrow> string" where
  "strftime_listing t =
     zfill 4 (dec (year t)) @ ''-'' @ zfill 2 (dec (month t)) @ ''-'' @ zfill 2 (dec (day t))
     @ '' '' @
     zfill 2 (dec (hour t)) @ '':'' @ zfill 2 (dec (minute t)) @ '':'' @ zfill 2 (dec (second t))"

subsection \<open>Requests, responses and the file system\<close>

type_synonym bytes = "8 word list"

text \<open>An entry of \<open>request.files\<close>: the client's file name and the bytes sent. The
  request carries the declared length of its whole body (\<open>Content-Length\<close>), which counts
  the bytes of the file and the multipart framing around them.\<close>

record file_storage =
  part_filename :: string
  part_stream :: bytes

record request =
  files :: "string \<rightharpoonup> file_storage"
  content_length :: nat

text \<open>A node is a regular file with its bytes and modification time, or anything else
  (a directory, a special file) with the size and time that \<open>stat\<close> reports.\<close>

datatype node = Regular bytes datetime | Other nat datetime

type_synonym filesystem = "string \<rightharpoonup> node"

text \<open>
  What the operating system does during one request: whether \<open>file.save\<close> completes or
  raises (with the text of the exception, and the number of bytes written before it,
  \<open>None\<close> when the file could not even be opened), whether \<open>stat\<close> raises, the time
  stamped on a written file, and what \<open>os.listdir\<close> returns or raises.
\<close>

datatype save_result = Saved | Save_raises string "nat option"

record environment =
  save_result :: save_result
  stat_error :: "string option"
  write_time :: datetime
  listdir_result :: "string + string list"

text \<open>The JSON bodies built by \<open>jsonify\<close>: \<open>{'error': ...}\<close>; the success record of an
  upload (message, filename, size, timestamp); \<open>{'files': [...]}\<close> with name, size and
  modification time of each file. \<open>Error_page\<close> is the page of the framework for an
  HTTP exception that no handler catches, with the name of the exception.\<close>

datatype body =
  Error_body string
| Error_page string
| Upload_body string string nat string
| Files_body "(string \<times> nat \<times> string) list"

type_synonym response = "body \<times> nat"

definition file_save ::
  "environment \<Rightarrow> bytes \<Rightarrow> string \<Rightarrow> filesystem \<Rightarrow> (string + unit) \<times> filesystem" where
  "file_save env content dst fs =
     (case save_result env of
        Saved \<Rightarrow> (Inr (), fs(dst \<mapsto> Regular content (write_time env)))
      | Save_raises cause None \<Rightarrow> (Inl cause, fs)
      | Save_raises cause (Some k) \<Rightarrow>
          (Inl cause, fs(dst \<mapsto> Regular (take k content) (write_time env))))"

definition isfile :: "filesystem \<Rightarrow> string \<Rightarrow> bool" where
  "isfile fs path = (case fs path of Some (Regular c t) \<Rightarrow> True | _ \<Rightarrow> False)"

definition getsize :: "environment \<Rightarrow> filesystem \<Rightarrow> string \<Rightarrow> string + nat" where
  "getsize env fs path =
     (case stat_error env of
        Some cause \<Rightarrow> Inl cause
      | None \<Rightarrow>
          (case fs path of
             None \<Rightarrow> Inl (''[Errno 2] No such file or directory: '' @ path)
           | Some (Regular c t) \<Rightarrow> Inr (length c)
           | Some (Other n t) \<Rightarrow> Inr n))"

definition getmtime :: "environment \<Rightarrow> filesystem \<Rightarrow> string \<Rightarrow> string + datetime" where
  "getmtime env fs path =
     (case stat_error env of
        Some cause \<Rightarrow> Inl cause
      | None \<Rightarrow>
          (case fs path of
             None \<Rightarrow> Inl (''[Errno 2] No such file or directory: '' @ path)
           | Some (Regular c t) \<Rightarrow> Inr t
           | Some (Other n t) \<Rightarrow> Inr t))"

subsection \<open>\<open>upload_file\<close>\<close>

text \<open>Lines 133 to 136: the stored name, from the client's file name and the value of
  \<open>datetime.now()\<close>.\<close>

definition unique_filename :: "(char \<Rightarrow> string) \<Rightarrow> string \<Rightarrow> datetime \<Rightarrow> string" where
  "unique_filename decomp original now =
     (let filename = secure_filename decomp original;
          timestamp = strftime now;
          (name, ext) = splitext filename
      in name @ ''_'' @ timestamp @ ext)"

definition upload_file ::
  "(char \<Rightarrow> string) \<Rightarrow> request \<Rightarrow> datetime \<Rightarrow> environment \<Rightarrow> filesystem
     \<Rightarrow> response \<times> filesystem" where
  "upload_file decomp req now env fs =
     (if MAX_CONTENT_LENGTH < content_length req
      then ((Error_page ''Request Entity Too Large'', 413), fs)
      else case files req ''file'' of
        None \<Rightarrow> ((Error_body ''No file part in the request'', 400), fs)
      | Some file \<Rightarrow>
          if part_filename file = [] then ((Error_body ''No file selected'', 400), fs)
          else if \<not> allowed_file (part_filename file)
          then ((Error_body ''File type not allowed'', 400), fs)
          else
            let unique = unique_filename decomp (part_filename file) now;
                timestamp = strftime now;
                filepath = path_join UPLOAD_FOLDER unique
            in (case file_save env (part_stream file) filepath fs of
                  (Inl e, fs') \<Rightarrow> ((Error_body (''Failed to save file: '' @ e), 500), fs')
                | (Inr u, fs') \<Rightarrow>
                    (case getsize env fs' filepath of
                       Inl e \<Rightarrow> ((Error_body (''Failed to save file: '' @ e), 500), fs')
                     | Inr file_size \<Rightarrow>
                         ((Upload_body ''File uploaded successfully'' unique file_size
                             timestamp, 200), fs'))))"

subsection \<open>\<open>list_files\<close>\<close>

text \<open>The loop over the names returned by \<open>os.listdir\<close>; an exception of \<open>stat\<close> leaves
  the loop.\<close>

fun list_entries ::
  "environment \<Rightarrow> filesystem \<Rightarrow> string list \<Rightarrow> string + (string \<times> nat \<times> string) list" where
  "list_entries env fs [] = Inr []"
| "list_entries env fs (filename # rest) =
     (let filepath = path_join UPLOAD_FOLDER filename
      in if isfile fs filepath
         then (case getsize env fs filepath of
                 Inl e \<Rightarrow> Inl e
               | Inr sz \<Rightarrow>
                   (case getmtime env fs filepath of
                      Inl e \<Rightarrow> Inl e
                    | Inr t \<Rightarrow>
                        (case list_entries env fs rest of
                           Inl e \<Rightarrow> Inl e
                         | Inr entries \<Rightarrow> Inr ((filename, sz, strftime_listing t) # entries))))
         else list_entries env fs rest)"

definition list_files :: "environment \<Rightarrow> filesystem \<Rightarrow> response" where
  "list_files env fs =
     (case listdir_result env of
        Inl e \<Rightarrow> (Error_body (''Failed to list files: '' @ e), 500)
      | Inr names \<Rightarrow>
          (case list_entries env fs names of
             Inl e \<Rightarrow> (Error_body (''Failed to list files: '' @ e), 500)
           | Inr entries \<Rightarrow> (Files_body entries, 200)))"

text \<open>The (name, size) pairs of a listing.\<close>

definition name_size_pairs :: "response \<Rightarrow> (string \<times> nat) set" where
  "name_size_pairs r =
     (case fst r of
        Files_body entries \<Rightarrow> set (map (\<lambda>(n, sz, m). (n, sz)) entries)
      | _ \<Rightarrow> {})"

section \<open>Notions of the specification\<close>

text \<open>The substring after the last occurrence of a character.\<close>

definition after_last :: "char \<Rightarrow> string \<Rightarrow> string" where
  "after_last c s = rev (takeWhile (\<lambda>x. x \<noteq> c) (rev s))"

text \<open>A decomposition table that leaves the ASCII characters alone, as Unicode's does.\<close>

definition ascii_preserving :: "(char \<Rightarrow> string) \<Rightarrow> bool" where
  "ascii_preserving decomp = (\<forall>c. is_ascii c \<longrightarrow> decomp c = [c])"

definition identity_decomp :: "char \<Rightarrow> string" where
  "identity_decomp c = [c]"

text \<open>The values a \<open>datetime\<close> object with a four-digit year can hold; the clock of
  a running system gives no other.\<close>

definition valid_datetime :: "datetime \<Rightarrow> bool" where
  "valid_datetime t =
     (1000 \<le> year t \<and> year t \<le> 9999 \<and> 1 \<le> month t \<and> month t \<le> 12 \<and>
      1 \<le> day t \<and> day t \<le> 31 \<and> hour t < 24 \<and> minute t < 60 \<and> second t < 60 \<and>
      microsecond t < 1000000)"

text \<open>The fixed-width token \<open>YYYYMMDD_HHMMSS\<close>: exactly \<open>k\<close> decimal digits for each
  field, the least significant last.\<close>

fun fixed_digits :: "nat \<Rightarrow> nat \<Rightarrow> string" where
  "fixed_digits 0 n = []"
| "fixed_digits (Suc k) n = fixed_digits k (n div 10) @ [digit (n mod 10)]"

definition timestamp_token :: "datetime \<Rightarrow> string" where
  "timestamp_token t =
     fixed_digits 4 (year t) @ fixed_digits 2 (month t) @ fixed_digits 2 (day t) @ ''_'' @
     fixed_digits 2 (hour t) @ fixed_digits 2 (minute t) @ fixed_digits 2 (second t)"

text \<open>
  Where a path leads: \<open>posixpath.normpath\<close> splits at the separator, drops empty and
  \<open>.\<close> components and lets \<open>..\<close> remove the component before it. A path resolves inside
  a root when its components are those of the root followed by at least one more.
\<close>

fun split_sep :: "char \<Rightarrow> string \<Rightarrow> string list" where
  "split_sep sep [] = [[]]"
| "split_sep sep (x # xs) =
     (if x = sep then [] # split_sep sep xs
      else (case split_sep sep xs of
              w # ws \<Rightarrow> (x # w) # ws
            | [] \<Rightarrow> [[x]]))"

fun norm_comps :: "bool \<Rightarrow> string list \<Rightarrow> string list \<Rightarrow> string list" where
  "norm_comps initial_slashes new_comps [] = new_comps"
| "norm_comps initial_slashes new_comps (c # comps) =
     (if c = [] \<or> c = ''.'' then norm_comps initial_slashes new_comps comps
      else if c \<noteq> ''..'' \<or> (\<not> initial_slashes \<and> new_comps = [])
              \<or> (new_comps \<noteq> [] \<and> last new_comps = ''..'')
      then norm_comps initial_slashes (new_comps @ [c]) comps
      else if new_comps \<noteq> [] then norm_comps initial_slashes (butlast new_comps) comps
      else norm_comps initial_slashes new_comps comps)"

definition isabs :: "string \<Rightarrow> bool" where
  "isabs p = (p \<noteq> [] \<and> hd p = CHR ''/'')"

definition normpath_comps :: "string \<Rightarrow> string list" where
  "normpath_comps p = norm_comps (isabs p) [] (split_sep CHR ''/'' p)"

definition resolves_inside :: "string \<Rightarrow> string \<Rightarrow> bool" where
  "resolves_inside root p =
     (isabs p = isabs root \<and> ''..'' \<notin> set (normpath_comps root) \<and>
      strict_prefix (normpath_comps root) (normpath_comps p))"

text \<open>Two calls of the listing see the same directory: \<open>os.listdir\<close> raises both times
  or returns the same names, in any order, and \<open>stat\<close> behaves alike.\<close>

definition same_directory :: "environment \<Rightarrow> environment \<Rightarrow> bool" where
  "same_directory env1 env2 =
     (stat_error env1 = stat_error env2 \<and>
      (case (listdir_result env1, listdir_result env2) of
         (Inr names1, Inr names2) \<Rightarrow> set names1 = set names2
       | (Inl e1, Inl e2) \<Rightarrow> True
       | _ \<Rightarrow> False))"


subsection \<open>Inputs of the scenarios\<close>

definition march_first :: datetime where
  "march_first =
     \<lparr>year = 2024, month = 3, day = 1, hour = 10, minute = 0, second = 0, microsecond = 0\<rparr>"

definition quiet :: environment where
  "quiet =
     \<lparr>save_result = Saved, stat_error = None, write_time = march_first,
      listdir_result = Inr []\<rparr>"

text \<open>A request with one file part; the body of the request is longer than the file
  by the multipart framing.\<close>

definition upload_of :: "string \<Rightarrow> bytes \<Rightarrow> request" where
  "upload_of n content =
     \<lparr>files = [''file'' \<mapsto> \<lparr>part_filename = n, part_stream = content\<rparr>],
      content_length = length content + 200\<rparr>"

definition stored_name :: "response \<Rightarrow> string option" where
  "stored_name r =
     (case fst r of Upload_body m n sz ts \<Rightarrow> Some n | _ \<Rightarrow> None)"

definition empty_disk :: filesystem where
  "empty_disk = Map.empty"

definition no_file_request :: request where
  "no_file_request = \<lparr>files = Map.empty, content_length = 0\<rparr>"

definition report_request :: request where
  "report_request = upload_of ''report.PDF'' (replicate 1024 0)"



definition disk_full :: environment where
  "disk_full =
     \<lparr>save_result = Save_raises ''[Errno 28] No space left on device'' (Some 3),
      stat_error = None, write_time = march_first, listdir_result = Inr []\<rparr>"

definition sample_disk :: filesystem where
  "sample_disk =
     [''uploads/a_20240301_100000.txt'' \<mapsto> Regular [1, 2, 3] march_first,
      ''uploads/sub'' \<mapsto> Other 4096 march_first,
      ''uploads/b_20240301_100000.pdf'' \<mapsto> Regular [7] march_first]"

definition first_listing :: environment where
  "first_listing =
     \<lparr>save_result = Saved, stat_error = None, write_time = march_first,
      listdir_result =
        Inr [''a_20240301_100000.txt'', ''sub'', ''b_20240301_100000.pdf'']\<rparr>"

definition second_listing :: environment where
  "second_listing =
     \<lparr>save_result = Saved, stat_error = None, write_time = march_first,
      listdir_result =
        Inr [''b_20240301_100000.pdf'', ''a_20240301_100000.txt'', ''sub'']\<rparr>"

declare dec.simps [simp del]
declare skip_dots.simps [simp del]

section \<open>Properties\<close>

subsection \<open>Library operations\<close>

lemma rfind_absent: "c \<notin> set s \<Longrightarrow> rfind s c = - 1"
  by (simp add: rfind_def)

lemma rfind_present: "c \<in> set s \<Longrightarrow> 0 \<le> rfind s c"
  by (simp add: rfind_def)

lemma takeWhile_rev_shorter:
  assumes "c \<in> set s"
  shows "length (takeWhile (\<lambda>x. x \<noteq> c) (rev s)) < length s"
proof -
  from assms have "takeWhile (\<lambda>x. x \<noteq> c) (rev s) \<noteq> rev s"
    by (auto simp: takeWhile_eq_all_conv)
  moreover have "length (takeWhile (\<lambda>x. x \<noteq> c) (rev s)) \<le> length (rev s)"
    by (rule length_takeWhile_le)
  ultimately show ?thesis
    by (metis length_rev le_neq_implies_less takeWhile_eq_take take_all_iff order_refl)
qed

lemma rsplit1_second:
  assumes "c \<in> set s"
  shows "rsplit1 s c ! 1 = after_last c s"
proof -
  let ?tw = "takeWhile (\<lambda>x. x \<noteq> c) (rev s)"
  have lt: "length ?tw < length s" using assms by (rule takeWhile_rev_shorter)
  have "drop (length s - length ?tw) s = rev (take (length ?tw) (rev s))"
    by (simp add: rev_take)
  also have "take (length ?tw) (rev s) = ?tw"
    by (rule takeWhile_eq_take [symmetric])
  finally have d: "drop (length s - length ?tw) s = rev ?tw" .
  have "nat (rfind s c) + 1 = length s - length ?tw"
    using assms lt by (simp add: rfind_def)
  moreover have "\<not> rfind s c < 0" using rfind_present [OF assms] by simp
  ultimately show ?thesis
    using d by (simp add: rsplit1_def Let_def after_last_def)
qed

lemma allowed_file_iff:
  "allowed_file s \<longleftrightarrow>
     CHR ''.'' \<in> set s \<and> lower (after_last CHR ''.'' s) \<in> ALLOWED_EXTENSIONS"
  unfolding allowed_file_def using rsplit1_second [of "CHR ''.''" s] by auto

lemma allowed_file_nonempty: "allowed_file s \<Longrightarrow> s \<noteq> []"
  by (auto simp: allowed_file_def)

subsection \<open>The branches of \<open>upload_file\<close>\<close>


lemma upload_no_file_part:
  "content_length req \<le> MAX_CONTENT_LENGTH \<Longrightarrow> files req ''file'' = None \<Longrightarrow>
   upload_file decomp req now env fs =
     ((Error_body ''No file part in the request'', 400), fs)"
  by (simp add: upload_file_def)

lemma upload_empty_filename:
  "content_length req \<le> MAX_CONTENT_LENGTH \<Longrightarrow>
   files req ''file'' = Some f \<Longrightarrow> part_filename f = [] \<Longrightarrow>
   upload_file decomp req now env fs = ((Error_body ''No file selected'', 400), fs)"
  by (simp add: upload_file_def)

lemma upload_not_allowed:
  "content_length req \<le> MAX_CONTENT_LENGTH \<Longrightarrow>
   files req ''file'' = Some f \<Longrightarrow> part_filename f \<noteq> [] \<Longrightarrow>
   \<not> allowed_file (part_filename f) \<Longrightarrow>
   upload_file decomp req now env fs = ((Error_body ''File type not allowed'', 400), fs)"
  by (simp add: upload_file_def)

lemma upload_saved:
  assumes "files req ''file'' = Some f" and "allowed_file (part_filename f)"
    and "save_result env = Saved" and "stat_error env = None"
    and "content_length req \<le> MAX_CONTENT_LENGTH"
  shows "upload_file decomp req now env fs =
     ((Upload_body ''File uploaded successfully''
         (unique_filename decomp (part_filename f) now)
         (length (part_stream f)) (strftime now), 200),
      fs(path_join UPLOAD_FOLDER (unique_filename decomp (part_filename f) now)
           \<mapsto> Regular (part_stream f) (write_time env)))"
proof -
  from assms(2) have "part_filename f \<noteq> []" by (rule allowed_file_nonempty)
  with assms show ?thesis
    by (simp add: upload_file_def file_save_def getsize_def Let_def)
qed

lemma upload_save_raises:
  assumes "files req ''file'' = Some f" and "allowed_file (part_filename f)"
    and "save_result env = Save_raises cause k"
    and "content_length req \<le> MAX_CONTENT_LENGTH"
  shows "fst (upload_file decomp req now env fs) =
     (Error_body (''Failed to save file: '' @ cause), 500)"
proof -
  from assms(2) have "part_filename f \<noteq> []" by (rule allowed_file_nonempty)
  with assms show ?thesis
    by (cases k) (simp_all add: upload_file_def file_save_def Let_def)
qed

lemma upload_stat_raises:
  assumes "files req ''file'' = Some f" and "allowed_file (part_filename f)"
    and "save_result env = Saved" and "stat_error env = Some cause"
    and "content_length req \<le> MAX_CONTENT_LENGTH"
  shows "fst (upload_file decomp req now env fs) =
     (Error_body (''Failed to save file: '' @ cause), 500)"
proof -
  from assms(2) have "part_filename f \<noteq> []" by (rule allowed_file_nonempty)
  with assms show ?thesis
    by (simp add: upload_file_def file_save_def getsize_def Let_def)
qed

text \<open>An accepted request ends in one of two ways, neither of them a rejection.\<close>

lemma upload_accepted_cases:
  assumes "files req ''file'' = Some f" and "allowed_file (part_filename f)"
    and "content_length req \<le> MAX_CONTENT_LENGTH"
  shows "snd (fst (upload_file decomp req now env fs)) = 200 \<or>
         snd (fst (upload_file decomp req now env fs)) = 500"
proof (cases "save_result env")
  case Saved
  show ?thesis
  proof (cases "stat_error env")
    case None
    with Saved assms show ?thesis by (simp add: upload_saved)
  next
    case (Some cause)
    with Saved assms show ?thesis by (simp add: upload_stat_raises)
  qed
next
  case (Save_raises cause k)
  with assms show ?thesis by (simp add: upload_save_raises)
qed

lemma cap_value: "MAX_CONTENT_LENGTH = 16777216"
  by (simp add: MAX_CONTENT_LENGTH_def MAX_FILE_SIZE_def)

lemma scenario_length [simp]:
  "content_length (upload_of n content) = length content + 200"
  by (simp add: upload_of_def)

lemma scenario_files [simp]:
  "files (upload_of n content) ''file'' =
     Some \<lparr>part_filename = n, part_stream = content\<rparr>"
  by (simp add: upload_of_def)

lemma quiet_simps [simp]:
  "save_result quiet = Saved" "stat_error quiet = None" "write_time quiet = march_first"
  by (simp_all add: quiet_def)

lemma march_first_token: "strftime march_first = ''20240301_100000''"
  by code_simp

lemma ascii_fold_ascii:
  assumes "ascii_preserving decomp" and "\<forall>c\<in>set s. is_ascii c"
  shows "ascii_fold decomp s = s"
proof -
  from assms have "\<forall>c\<in>set s. decomp c = [c]"
    by (simp add: ascii_preserving_def)
  then have "concat (map decomp s) = s"
    by (induction s) simp_all
  with assms(2) show ?thesis
    by (simp add: ascii_fold_def)
qed

lemma identity_decomp_preserving: "ascii_preserving identity_decomp"
  by (simp add: ascii_preserving_def identity_decomp_def)

lemma secure_filename_ascii:
  assumes "ascii_preserving decomp" and "\<forall>c\<in>set s. is_ascii c"
  shows "secure_filename decomp s = secure_filename identity_decomp s"
  using ascii_fold_ascii [OF assms] ascii_fold_ascii [OF identity_decomp_preserving assms(2)]
  by (simp add: secure_filename_def)

lemma unique_filename_ascii:
  assumes "ascii_preserving decomp" and "\<forall>c\<in>set s. is_ascii c"
  shows "unique_filename decomp s now = unique_filename identity_decomp s now"
  using secure_filename_ascii [OF assms] by (simp add: unique_filename_def)

lemma strftime_microsecond: "strftime (t\<lparr>microsecond := u\<rparr>) = strftime t"
  by (simp add: strftime_def)

lemma unique_filename_microsecond:
  "unique_filename decomp s (t\<lparr>microsecond := u\<rparr>) = unique_filename decomp s t"
  by (simp add: unique_filename_def strftime_microsecond)

subsection \<open>Rejection of a request without a file name\<close>

text \<open>
  Claim C7. A decoded request (one within the cap on the body) without a file part, or
  whose file part has the empty file name, is answered with status 400 and the message
  of the missing file name, never with the message for a wrong type; the file system is
  left as it was.
\<close>

theorem no_filename_rejected:
  assumes "content_length req \<le> MAX_CONTENT_LENGTH"
  shows "(files req ''file'' = None \<longrightarrow>
      upload_file decomp req now env fs =
        ((Error_body ''No file part in the request'', 400), fs)) \<and>
   (files req ''file'' = Some f \<and> part_filename f = [] \<longrightarrow>
      upload_file decomp req now env fs = ((Error_body ''No file selected'', 400), fs))"
  using assms by (simp add: upload_no_file_part upload_empty_filename)

theorem no_filename_rejected_witness:
  "content_length no_file_request \<le> MAX_CONTENT_LENGTH \<and>
   files no_file_request ''file'' = None \<and>
   upload_file identity_decomp no_file_request march_first quiet empty_disk =
     ((Error_body ''No file part in the request'', 400), empty_disk) \<and>
   content_length (upload_of [] [1, 2, 3]) \<le> MAX_CONTENT_LENGTH \<and>
   files (upload_of [] [1, 2, 3]) ''file'' =
     Some \<lparr>part_filename = [], part_stream = [1, 2, 3]\<rparr> \<and>
   upload_file identity_decomp (upload_of [] [1, 2, 3]) march_first quiet empty_disk =
     ((Error_body ''No file selected'', 400), empty_disk)"
  using
    no_filename_rejected [where req = no_file_request and decomp = identity_decomp
      and now = march_first and env = quiet and fs = empty_disk]
    no_filename_rejected [where req = "upload_of [] [1, 2, 3]"
      and f = "\<lparr>part_filename = [], part_stream = [1, 2, 3]\<rparr>"
      and decomp = identity_decomp and now = march_first and env = quiet
      and fs = empty_disk]
  by (simp add: no_file_request_def cap_value)

subsection \<open>I/O failures\<close>

text \<open>
  Claim C9. When saving the file raises (whatever was written before), or the size query
  after a completed save raises, the response is the error of status 500 whose message
  carries the text of the exception; it is not a success record, so no stored name is
  reported. The store is reached by decoded requests only, those within the cap on the
  body.
\<close>

theorem io_failure_reported:
  assumes "content_length req \<le> MAX_CONTENT_LENGTH"
    and "files req ''file'' = Some f" and "allowed_file (part_filename f)"
    and "save_result env = Save_raises cause k \<or>
         (save_result env = Saved \<and> stat_error env = Some cause)"
  shows "fst (upload_file decomp req now env fs) =
           (Error_body (''Failed to save file: '' @ cause), 500) \<and>
         stored_name (fst (upload_file decomp req now env fs)) = None"
proof -
  from assms have "fst (upload_file decomp req now env fs) =
      (Error_body (''Failed to save file: '' @ cause), 500)"
    by (auto simp: upload_save_raises upload_stat_raises)
  then show ?thesis by (simp add: stored_name_def)
qed

theorem io_failure_reported_witness:
  "fst (upload_file identity_decomp (upload_of ''a.txt'' [1, 2, 3, 4]) march_first disk_full
          empty_disk) =
     (Error_body ''Failed to save file: [Errno 28] No space left on device'', 500) \<and>
   stored_name (fst (upload_file identity_decomp (upload_of ''a.txt'' [1, 2, 3, 4])
     march_first disk_full empty_disk)) = None"
proof -
  have a: "allowed_file ''a.txt''" by code_simp
  have s: "save_result disk_full =
      Save_raises ''[Errno 28] No space left on device'' (Some 3)"
    by (simp add: disk_full_def)
  show ?thesis
    using io_failure_reported [where req = "upload_of ''a.txt'' [1, 2, 3, 4]"
        and f = "\<lparr>part_filename = ''a.txt'', part_stream = [1, 2, 3, 4]\<rparr>"
        and env = disk_full and cause = "''[Errno 28] No space left on device''"
        and k = "Some 3" and decomp = identity_decomp and now = march_first
        and fs = empty_disk] a s
    by (simp add: stored_name_def cap_value)
qed

subsection \<open>The extension check\<close>

text \<open>
  Claim C2. For a decoded request whose file part has a non-empty file name, the response
  is the rejection for a disallowed type exactly when the name has no dot or the
  substring after its last dot, in lower case, is not an allowed extension. The bytes of
  the file, the time and the state of the disk play no part.
\<close>

theorem disallowed_extension_exact:
  assumes "content_length req \<le> MAX_CONTENT_LENGTH"
    and "files req ''file'' = Some f" and "part_filename f \<noteq> []"
  shows "fst (upload_file decomp req now env fs) = (Error_body ''File type not allowed'', 400)
     \<longleftrightarrow>
       (CHR ''.'' \<notin> set (part_filename f) \<or>
        lower (after_last CHR ''.'' (part_filename f)) \<notin> ALLOWED_EXTENSIONS)"
proof (cases "allowed_file (part_filename f)")
  case True
  from upload_accepted_cases [OF assms(2) True assms(1), of decomp now env fs]
  have "fst (upload_file decomp req now env fs) \<noteq> (Error_body ''File type not allowed'', 400)"
    by auto
  with True show ?thesis by (simp add: allowed_file_iff)
next
  case False
  from upload_not_allowed [OF assms False]
  have "fst (upload_file decomp req now env fs) = (Error_body ''File type not allowed'', 400)"
    by simp
  with False show ?thesis by (simp add: allowed_file_iff)
qed

theorem disallowed_extension_exact_witness:
  "fst (upload_file identity_decomp (upload_of ''malware.exe'' [77, 90]) march_first quiet
          empty_disk) = (Error_body ''File type not allowed'', 400) \<and>
   fst (upload_file identity_decomp (upload_of ''README'' [77, 90]) march_first quiet
          empty_disk) = (Error_body ''File type not allowed'', 400) \<and>
   fst (upload_file identity_decomp (upload_of ''photo.JpEg'' [77, 90]) march_first quiet
          empty_disk) \<noteq> (Error_body ''File type not allowed'', 400)"
proof -
  have a: "lower (after_last CHR ''.'' ''malware.exe'') \<notin> ALLOWED_EXTENSIONS"
    by code_simp
  have b: "CHR ''.'' \<notin> set ''README''"
    by simp
  have c: "CHR ''.'' \<in> set ''photo.JpEg'' \<and>
           lower (after_last CHR ''.'' ''photo.JpEg'') \<in> ALLOWED_EXTENSIONS"
    by code_simp
  show ?thesis
    using
      disallowed_extension_exact [where req = "upload_of ''malware.exe'' [77, 90]"
        and f = "\<lparr>part_filename = ''malware.exe'', part_stream = [77, 90]\<rparr>"
        and decomp = identity_decomp and now = march_first and env = quiet
        and fs = empty_disk]
      disallowed_extension_exact [where req = "upload_of ''README'' [77, 90]"
        and f = "\<lparr>part_filename = ''README'', part_stream = [77, 90]\<rparr>"
        and decomp = identity_decomp and now = march_first and env = quiet
        and fs = empty_disk]
      disallowed_extension_exact [where req = "upload_of ''photo.JpEg'' [77, 90]"
        and f = "\<lparr>part_filename = ''photo.JpEg'', part_stream = [77, 90]\<rparr>"
        and decomp = identity_decomp and now = march_first and env = quiet
        and fs = empty_disk]
      a b c
    by (simp add: cap_value)
qed

subsection \<open>The size of the upload\<close>




subsection \<open>The scenario of \<open>report.PDF\<close>\<close>

lemma report_allowed: "allowed_file ''report.PDF''"
  by code_simp

lemma report_unique:
  "unique_filename identity_decomp ''report.PDF'' march_first = ''report_20240301_100000.PDF''"
  by code_simp

lemma report_cap: "content_length report_request \<le> MAX_CONTENT_LENGTH"
  by (simp add: report_request_def cap_value)

lemma at_march_first:
  assumes "year now = 2024" and "month now = 3" and "day now = 1" and "hour now = 10"
    and "minute now = 0" and "second now = 0"
  shows "now = march_first\<lparr>microsecond := microsecond now\<rparr>"
  using assms by (cases now) (simp add: march_first_def)

text \<open>
  Claim C4, as stated, expects the stored name \<open>report_20240301_100000.pdf\<close>. The
  extension is not lower-cased on the way to the disk.
\<close>

theorem report_lowercase_counterexample:
  "stored_name (fst (upload_file identity_decomp report_request march_first quiet empty_disk))
     \<noteq> Some ''report_20240301_100000.pdf''"
proof -
  have "fst (upload_file identity_decomp report_request march_first quiet empty_disk) =
     (Upload_body ''File uploaded successfully'' ''report_20240301_100000.PDF'' 1024
        ''20240301_100000'', 200)"
    using upload_saved [where req = report_request
        and f = "\<lparr>part_filename = ''report.PDF'', part_stream = replicate 1024 0\<rparr>"
        and env = quiet and decomp = identity_decomp and now = march_first
        and fs = empty_disk] report_allowed report_cap
    by (simp add: report_request_def report_unique march_first_token)
  then show ?thesis by (simp add: stored_name_def)
qed

text \<open>
  Claim C4, amended. Uploading 1024 bytes under the name \<open>report.PDF\<close> at
  2024-03-01T10:00:00, in a request within the cap and on a disk that does not fail,
  stores them under \<open>report_20240301_100000.PDF\<close>, the extension in the client's letter
  case, and the success response reports that name, the size 1024 and the timestamp.
\<close>

theorem report_scenario:
  assumes "ascii_preserving decomp"
    and "files req ''file'' = Some f" and "part_filename f = ''report.PDF''"
    and "length (part_stream f) = 1024"
    and "save_result env = Saved" and "stat_error env = None"
    and "year now = 2024" and "month now = 3" and "day now = 1" and "hour now = 10"
    and "minute now = 0" and "second now = 0"
    and "content_length req \<le> MAX_CONTENT_LENGTH"
  shows "upload_file decomp req now env fs =
     ((Upload_body ''File uploaded successfully'' ''report_20240301_100000.PDF'' 1024
         ''20240301_100000'', 200),
      fs(''uploads/report_20240301_100000.PDF'' \<mapsto> Regular (part_stream f) (write_time env)))"
proof -
  have ascii: "\<forall>c\<in>set ''report.PDF''. is_ascii c"
    by (simp add: is_ascii_def)
  have now: "now = march_first\<lparr>microsecond := microsecond now\<rparr>"
    using assms(7-12) by (rule at_march_first)
  have "strftime now = strftime march_first"
    by (subst now) (rule strftime_microsecond)
  then have ts: "strftime now = ''20240301_100000''"
    by (simp add: march_first_token)
  have "unique_filename decomp ''report.PDF'' now =
        unique_filename identity_decomp ''report.PDF'' now"
    using assms(1) ascii by (rule unique_filename_ascii)
  also have "\<dots> = unique_filename identity_decomp ''report.PDF'' march_first"
    by (subst now) (rule unique_filename_microsecond)
  finally have u: "unique_filename decomp ''report.PDF'' now = ''report_20240301_100000.PDF''"
    by (simp add: report_unique)
  have j: "path_join UPLOAD_FOLDER ''report_20240301_100000.PDF'' =
      ''uploads/report_20240301_100000.PDF''"
    by (simp add: path_join_def UPLOAD_FOLDER_def)
  from assms(3) report_allowed have "allowed_file (part_filename f)" by simp
  from upload_saved [OF assms(2) this assms(5,6,13), of decomp now fs]
  show ?thesis
    using assms(3,4) by (simp add: u ts j)
qed

theorem report_scenario_witness:
  "upload_file identity_decomp report_request march_first quiet empty_disk =
     ((Upload_body ''File uploaded successfully'' ''report_20240301_100000.PDF'' 1024
         ''20240301_100000'', 200),
      empty_disk(''uploads/report_20240301_100000.PDF'' \<mapsto>
        Regular (replicate 1024 0) march_first))"
  using report_scenario [where decomp = identity_decomp and req = report_request
      and f = "\<lparr>part_filename = ''report.PDF'', part_stream = replicate 1024 0\<rparr>"
      and env = quiet and now = march_first and fs = empty_disk]
    identity_decomp_preserving report_cap
  by (simp add: report_request_def march_first_def)

subsection \<open>The timestamp token\<close>

lemma fixed_digits_zero: "fixed_digits k 0 = replicate k CHR ''0''"
proof (induction k)
  case 0
  show ?case by simp
next
  case (Suc k)
  have "digit 0 = CHR ''0''" by code_simp
  with Suc show ?case by (simp add: replicate_append_same)
qed

lemma length_fixed_digits [simp]: "length (fixed_digits k n) = k"
  by (induction k arbitrary: n) simp_all

lemma length_dec_le: "0 < k \<Longrightarrow> n < 10 ^ k \<Longrightarrow> length (dec n) \<le> k"
proof (induction k arbitrary: n)
  case 0
  then show ?case by simp
next
  case (Suc k)
  show ?case
  proof (cases "n < 10")
    case True
    then show ?thesis by (subst dec.simps) simp
  next
    case False
    with Suc.prems have "n div 10 < 10 ^ k" by simp
    moreover from False Suc.prems have "0 < k" by (cases k) simp_all
    ultimately have "length (dec (n div 10)) \<le> k" using Suc.IH by simp
    with False show ?thesis by (subst dec.simps) simp
  qed
qed

lemma zfill_dec: "0 < k \<Longrightarrow> n < 10 ^ k \<Longrightarrow> zfill k (dec n) = fixed_digits k n"
proof (induction k arbitrary: n)
  case 0
  then show ?case by simp
next
  case (Suc k)
  show ?case
  proof (cases "n < 10")
    case True
    then have "dec n = [digit n]" by (subst dec.simps) simp
    moreover from True have "n div 10 = 0" and "n mod 10 = n" by simp_all
    ultimately show ?thesis by (simp add: zfill_def fixed_digits_zero)
  next
    case False
    with Suc.prems have small: "n div 10 < 10 ^ k" by simp
    from False Suc.prems have pos: "0 < k" by (cases k) simp_all
    have len: "length (dec (n div 10)) \<le> k" using pos small by (rule length_dec_le)
    have d: "dec n = dec (n div 10) @ [digit (n mod 10)]"
      using False by (subst dec.simps) simp
    have "zfill (Suc k) (dec n) = zfill k (dec (n div 10)) @ [digit (n mod 10)]"
      using len by (simp add: d zfill_def)
    with Suc.IH [OF pos small] show ?thesis by simp
  qed
qed

lemma strftime_token: "valid_datetime t \<Longrightarrow> strftime t = timestamp_token t"
  by (simp add: valid_datetime_def strftime_def timestamp_token_def zfill_dec)

lemma length_timestamp_token: "length (timestamp_token t) = 15"
  by (simp add: timestamp_token_def)

lemma splitext_unfold:
  "unique_filename decomp original now =
     fst (splitext (secure_filename decomp original)) @ ''_'' @ strftime now @
     snd (splitext (secure_filename decomp original))"
  by (simp add: unique_filename_def Let_def split_beta)

text \<open>
  Claim C5. The stored name is the stem of the sanitized name, an underscore, the
  timestamp token and the extension of the sanitized name. For every value a
  \<open>datetime\<close> can hold the token is the fixed-width rendering \<open>YYYYMMDD_HHMMSS\<close>, of 15
  characters, and it does not change with the microseconds.
\<close>

theorem stored_name_composition:
  assumes "valid_datetime now"
    and "splitext (secure_filename decomp original) = (stem, extension)"
  shows "unique_filename decomp original now = stem @ ''_'' @ timestamp_token now @ extension \<and>
         strftime now = timestamp_token now \<and>
         length (timestamp_token now) = 15 \<and>
         timestamp_token (now\<lparr>microsecond := u\<rparr>) = timestamp_token now"
proof -
  from assms(1) have "strftime now = timestamp_token now" by (rule strftime_token)
  moreover have "timestamp_token (now\<lparr>microsecond := u\<rparr>) = timestamp_token now"
    by (simp add: timestamp_token_def)
  ultimately show ?thesis
    using assms(2) by (simp add: splitext_unfold length_timestamp_token)
qed

theorem stored_name_composition_witness:
  "valid_datetime march_first \<and>
   splitext (secure_filename identity_decomp ''My Notes.tar.gz'') = (''My_Notes.tar'', ''.gz'') \<and>
   unique_filename identity_decomp ''My Notes.tar.gz'' march_first =
     ''My_Notes.tar'' @ ''_'' @ ''20240301_100000'' @ ''.gz'' \<and>
   timestamp_token march_first = ''20240301_100000''"
proof -
  have v: "valid_datetime march_first"
    by (simp add: valid_datetime_def march_first_def)
  have s: "splitext (secure_filename identity_decomp ''My Notes.tar.gz'') =
      (''My_Notes.tar'', ''.gz'')"
    by code_simp
  have t: "timestamp_token march_first = ''20240301_100000''"
    by code_simp
  from stored_name_composition [OF v s, of 0] t v s show ?thesis
    by simp
qed



subsection \<open>The listing\<close>

lemma getsize_regular:
  "isfile fs p \<Longrightarrow> getsize env fs p =
     (case stat_error env of Some cause \<Rightarrow> Inl cause
      | None \<Rightarrow> Inr (case fs p of Some (Regular c t) \<Rightarrow> length c | _ \<Rightarrow> 0))"
  by (auto simp: isfile_def getsize_def split: option.splits node.splits)

lemma getmtime_regular:
  "isfile fs p \<Longrightarrow> stat_error env = None \<Longrightarrow> \<exists>t. getmtime env fs p = Inr t"
  by (auto simp: isfile_def getmtime_def split: option.splits node.splits)

text \<open>The size that the listing reports for a name.\<close>

lemma list_entries_fails_iff:
  "(\<exists>e. list_entries env fs names = Inl e) \<longleftrightarrow>
     stat_error env \<noteq> None \<and> (\<exists>n\<in>set names. isfile fs (path_join UPLOAD_FOLDER n))"
proof (induction names)
  case Nil
  show ?case by simp
next
  case (Cons n names)
  show ?case
  proof (cases "isfile fs (path_join UPLOAD_FOLDER n)")
    case False
    with Cons show ?thesis by (simp add: Let_def)
  next
    case True
    show ?thesis
    proof (cases "stat_error env")
      case (Some cause)
      with True show ?thesis by (simp add: Let_def getsize_regular)
    next
      case None
      from getmtime_regular [OF True None] obtain t
        where "getmtime env fs (path_join UPLOAD_FOLDER n) = Inr t" by blast
      with True None Cons show ?thesis
        by (auto simp: Let_def getsize_regular split: sum.splits)
    qed
  qed
qed

lemma list_entries_pairs:
  "list_entries env fs names = Inr entries \<Longrightarrow>
   set (map (\<lambda>(n, sz, m). (n, sz)) entries) =
     {(n, sz). n \<in> set names \<and>
        (\<exists>c t. fs (path_join UPLOAD_FOLDER n) = Some (Regular c t) \<and> sz = length c)}"
proof (induction names arbitrary: entries)
  case Nil
  then show ?case by simp
next
  case (Cons n names)
  show ?case
  proof (cases "isfile fs (path_join UPLOAD_FOLDER n)")
    case False
    with Cons.prems have "list_entries env fs names = Inr entries" by (simp add: Let_def)
    from Cons.IH [OF this] False show ?thesis
      by (auto simp: isfile_def)
  next
    case True
    then obtain c t where reg: "fs (path_join UPLOAD_FOLDER n) = Some (Regular c t)"
      by (auto simp: isfile_def split: option.splits node.splits)
    from Cons.prems True obtain m rest
      where rest: "list_entries env fs names = Inr rest"
        and entries: "entries = (n, length c, m) # rest"
      by (auto simp: Let_def getsize_def reg split: sum.splits option.splits)
    from Cons.IH [OF rest] show ?thesis
      by (auto simp: entries reg)
  qed
qed

text \<open>
  Claim C8. Two calls of the listing on the same file system, between which the directory
  has the same names (\<open>os.listdir\<close> may return them in another order), report the same
  set of (name, size) pairs.
\<close>

theorem listing_idempotent:
  assumes "same_directory env1 env2"
  shows "name_size_pairs (list_files env1 fs) = name_size_pairs (list_files env2 fs)"
proof (cases "listdir_result env1")
  case (Inl e1)
  with assms obtain e2 where "listdir_result env2 = Inl e2"
    by (cases "listdir_result env2") (auto simp: same_directory_def)
  with Inl show ?thesis
    by (simp add: list_files_def name_size_pairs_def)
next
  case (Inr names1)
  with assms obtain names2 where names2: "listdir_result env2 = Inr names2"
    and same: "set names1 = set names2"
    by (cases "listdir_result env2") (auto simp: same_directory_def)
  from assms have stat: "stat_error env1 = stat_error env2"
    by (simp add: same_directory_def)
  show ?thesis
  proof (cases "list_entries env1 fs names1")
    case (Inl e)
    then have "\<exists>e. list_entries env1 fs names1 = Inl e" by blast
    then have "\<exists>e. list_entries env2 fs names2 = Inl e"
      using same stat unfolding list_entries_fails_iff by simp
    then obtain e' where "list_entries env2 fs names2 = Inl e'" by blast
    with Inl Inr names2 show ?thesis
      by (simp add: list_files_def name_size_pairs_def)
  next
    case entries1: (Inr entries1)
    have "\<not> (\<exists>e. list_entries env2 fs names2 = Inl e)"
    proof
      assume "\<exists>e. list_entries env2 fs names2 = Inl e"
      then have "\<exists>e. list_entries env1 fs names1 = Inl e"
        using same stat unfolding list_entries_fails_iff by simp
      with entries1 show False by simp
    qed
    then obtain entries2 where entries2: "list_entries env2 fs names2 = Inr entries2"
      by (cases "list_entries env2 fs names2") auto
    from list_entries_pairs [OF entries1] list_entries_pairs [OF entries2] same
    have "set (map (\<lambda>(n, sz, m). (n, sz)) entries1) =
          set (map (\<lambda>(n, sz, m). (n, sz)) entries2)"
      by simp
    with entries1 entries2 Inr names2 show ?thesis
      by (simp add: list_files_def name_size_pairs_def)
  qed
qed

theorem listing_idempotent_witness:
  "same_directory first_listing second_listing \<and>
   name_size_pairs (list_files first_listing sample_disk) =
     {(''a_20240301_100000.txt'', 3), (''b_20240301_100000.pdf'', 1)} \<and>
   name_size_pairs (list_files second_listing sample_disk) =
     {(''a_20240301_100000.txt'', 3), (''b_20240301_100000.pdf'', 1)}"
proof -
  have same: "same_directory first_listing second_listing"
    by (auto simp: same_directory_def first_listing_def second_listing_def)
  have "name_size_pairs (list_files first_listing sample_disk) =
     {(''a_20240301_100000.txt'', 3), (''b_20240301_100000.pdf'', 1)}"
    by (simp add: list_files_def first_listing_def sample_disk_def name_size_pairs_def
        path_join_def UPLOAD_FOLDER_def isfile_def getsize_def getmtime_def
        numeral_3_eq_3)
  with listing_idempotent [OF same, of sample_disk] same show ?thesis
    by simp
qed

subsection \<open>Characters of the stored name\<close>

lemma set_strip: "set (strip chars s) \<subseteq> set s"
proof -
  have "set (strip chars s) \<subseteq> set (dropWhile (\<lambda>c. c \<in> set chars) s)"
    unfolding strip_def using set_dropWhileD by fastforce
  also have "\<dots> \<subseteq> set s"
    using set_dropWhileD by fastforce
  finally show ?thesis .
qed

lemma secure_filename_safe: "c \<in> set (secure_filename decomp original) \<Longrightarrow> safe_char c"
proof -
  assume "c \<in> set (secure_filename decomp original)"
  then have "c \<in> set (filter safe_char (join ''_'' (split_ws []
      (replace_char CHR ''/'' CHR '' '' (ascii_fold decomp original)))))"
    using set_strip unfolding secure_filename_def Let_def by blast
  then show "safe_char c" by simp
qed

lemma slash_unsafe: "\<not> safe_char CHR ''/''"
  by (simp add: safe_char_def)

lemma skip_dots_result:
  "skip_dots p i d = Some r \<Longrightarrow> r = (take d p, drop d p)"
proof (induction p i d rule: skip_dots.induct)
  case (1 p i d)
  from "1.prems" have "i < d"
    by (subst (asm) skip_dots.simps) (simp split: if_splits)
  show ?case
  proof (cases "p ! i \<noteq> CHR ''.''")
    case True
    with \<open>i < d\<close> "1.prems" show ?thesis
      by (subst (asm) skip_dots.simps) simp
  next
    case False
    with \<open>i < d\<close> "1.prems" have "skip_dots p (i + 1) d = Some r"
      by (subst (asm) skip_dots.simps) simp
    with "1.IH" \<open>i < d\<close> False show ?thesis by simp
  qed
qed

lemma splitext_append: "fst (splitext p) @ snd (splitext p) = p"
proof (cases "skip_dots p (nat (rfind p CHR ''/'' + 1)) (nat (rfind p CHR ''.''))")
  case None
  then show ?thesis by (simp add: splitext_def Let_def)
next
  case (Some r)
  from skip_dots_result [OF this] Some show ?thesis
    by (simp add: splitext_def Let_def)
qed

lemma set_splitext: "set (fst (splitext p)) \<union> set (snd (splitext p)) = set p"
  using splitext_append [of p] by (metis set_append)

lemma digit_code: "d < 10 \<Longrightarrow> (of_char (digit d) :: nat) = 48 + d"
  by (simp add: digit_def)

lemma dec_digits: "c \<in> set (dec n) \<Longrightarrow> 48 \<le> (of_char c :: nat) \<and> (of_char c :: nat) \<le> 57"
proof (induction n arbitrary: c rule: dec.induct)
  case (1 n)
  show ?case
  proof (cases "n < 10")
    case True
    with "1.prems" have "c = digit n" by (subst (asm) dec.simps) simp
    with True show ?thesis by (simp add: digit_code)
  next
    case False
    with "1.prems" have "c \<in> set (dec (n div 10)) \<or> c = digit (n mod 10)"
      by (subst (asm) dec.simps) auto
    then show ?thesis
    proof
      assume "c \<in> set (dec (n div 10))"
      with "1.IH" False show ?thesis by simp
    next
      assume "c = digit (n mod 10)"
      then show ?thesis by (simp add: digit_code)
    qed
  qed
qed

lemma zfill_digits:
  "c \<in> set (zfill w (dec n)) \<Longrightarrow> 48 \<le> (of_char c :: nat) \<and> (of_char c :: nat) \<le> 57"
  by (auto simp: zfill_def dest: dec_digits)

lemma strftime_chars:
  "c \<in> set (strftime t) \<Longrightarrow>
     c = CHR ''_'' \<or> (48 \<le> (of_char c :: nat) \<and> (of_char c :: nat) \<le> 57)"
  unfolding strftime_def using zfill_digits by auto

lemma strftime_no_slash: "CHR ''/'' \<notin> set (strftime t)"
  using strftime_chars [of "CHR ''/''" t] by auto

lemma unique_filename_no_slash: "CHR ''/'' \<notin> set (unique_filename decomp original now)"
proof
  assume "CHR ''/'' \<in> set (unique_filename decomp original now)"
  then have "CHR ''/'' \<in> set (fst (splitext (secure_filename decomp original))) \<union>
      set (snd (splitext (secure_filename decomp original)))"
    using strftime_no_slash [of now] by (auto simp: splitext_unfold)
  then have "CHR ''/'' \<in> set (secure_filename decomp original)"
    by (simp only: set_splitext)
  then show False using secure_filename_safe slash_unsafe by blast
qed

lemma unique_filename_underscore: "CHR ''_'' \<in> set (unique_filename decomp original now)"
  by (simp add: splitext_unfold)

subsection \<open>The destination path\<close>

lemma split_sep_none: "sep \<notin> set s \<Longrightarrow> split_sep sep s = [s]"
  by (induction s) auto

lemma destination_comps:
  assumes "CHR ''/'' \<notin> set u" and "CHR ''_'' \<in> set u"
  shows "path_join UPLOAD_FOLDER u = ''uploads/'' @ u"
    and "normpath_comps (path_join UPLOAD_FOLDER u) = [''uploads'', u]"
    and "\<not> isabs (path_join UPLOAD_FOLDER u)"
proof -
  from assms have ne: "u \<noteq> []" and hd: "hd u \<noteq> CHR ''/''"
    by (cases u; auto)+
  from assms(2) have dots: "u \<noteq> ''.''" "u \<noteq> ''..''" by auto
  show j: "path_join UPLOAD_FOLDER u = ''uploads/'' @ u"
    using hd by (simp add: path_join_def UPLOAD_FOLDER_def)
  show "\<not> isabs (path_join UPLOAD_FOLDER u)"
    by (simp add: j isabs_def)
  have "split_sep CHR ''/'' (''uploads/'' @ u) = [''uploads'', u]"
    using split_sep_none [OF assms(1)] by simp
  then show "normpath_comps (path_join UPLOAD_FOLDER u) = [''uploads'', u]"
    using ne dots by (simp add: j normpath_comps_def isabs_def)
qed

lemma root_comps: "normpath_comps UPLOAD_FOLDER = [''uploads'']" "\<not> isabs UPLOAD_FOLDER"
  by (simp_all add: normpath_comps_def UPLOAD_FOLDER_def isabs_def)

lemma destination_inside:
  "resolves_inside UPLOAD_FOLDER (path_join UPLOAD_FOLDER (unique_filename decomp original now))"
  using destination_comps [OF unique_filename_no_slash unique_filename_underscore,
      of decomp original now]
  by (simp add: resolves_inside_def root_comps)

lemma upload_file_writes:
  assumes "snd (upload_file decomp req now env fs) p \<noteq> fs p"
  shows "\<exists>f. files req ''file'' = Some f \<and> allowed_file (part_filename f) \<and>
           p = path_join UPLOAD_FOLDER (unique_filename decomp (part_filename f) now)"
  using assms
  by (auto simp: upload_file_def file_save_def Let_def
      split: option.splits if_splits save_result.splits sum.splits prod.splits)

text \<open>The name of the client, joined to the root as it came, would leave the root.\<close>

lemma raw_name_escapes:
  "\<not> resolves_inside UPLOAD_FOLDER (path_join UPLOAD_FOLDER ''../../etc/passwd'')"
  by code_simp

text \<open>
  Claim C1. For every file name of the client, every decomposition table and every time,
  the destination path built from the derived name resolves inside the upload folder;
  and every path at which an upload changes the file system resolves inside it (a
  request above the cap changes nothing).
\<close>

theorem upload_stays_inside_root:
  "resolves_inside UPLOAD_FOLDER
     (path_join UPLOAD_FOLDER (unique_filename decomp original now)) \<and>
   (snd (upload_file decomp req now env fs) p \<noteq> fs p \<longrightarrow> resolves_inside UPLOAD_FOLDER p)"
  using destination_inside upload_file_writes by blast

theorem upload_stays_inside_root_witness:
  "path_join UPLOAD_FOLDER (unique_filename identity_decomp ''../../etc/passwd'' march_first) =
     ''uploads/etc_passwd_20240301_100000'' \<and>
   resolves_inside UPLOAD_FOLDER ''uploads/etc_passwd_20240301_100000'' \<and>
   snd (upload_file identity_decomp (upload_of ''../../etc/passwd.txt'' [1]) march_first quiet
          empty_disk) ''uploads/etc_passwd_20240301_100000.txt''
     \<noteq> empty_disk ''uploads/etc_passwd_20240301_100000.txt'' \<and>
   resolves_inside UPLOAD_FOLDER ''uploads/etc_passwd_20240301_100000.txt''"
proof -
  have a: "allowed_file ''../../etc/passwd.txt''" by code_simp
  have u: "path_join UPLOAD_FOLDER
      (unique_filename identity_decomp ''../../etc/passwd.txt'' march_first) =
      ''uploads/etc_passwd_20240301_100000.txt''"
    by code_simp
  have v: "path_join UPLOAD_FOLDER
      (unique_filename identity_decomp ''../../etc/passwd'' march_first) =
      ''uploads/etc_passwd_20240301_100000''"
    by code_simp
  have w: "snd (upload_file identity_decomp (upload_of ''../../etc/passwd.txt'' [1])
      march_first quiet empty_disk) ''uploads/etc_passwd_20240301_100000.txt''
     \<noteq> empty_disk ''uploads/etc_passwd_20240301_100000.txt''"
    using upload_saved [where req = "upload_of ''../../etc/passwd.txt'' [1]"
        and f = "\<lparr>part_filename = ''../../etc/passwd.txt'', part_stream = [1]\<rparr>"
        and env = quiet and decomp = identity_decomp and now = march_first
        and fs = empty_disk] a
    by (simp add: u empty_disk_def cap_value)
  from upload_stays_inside_root [where decomp = identity_decomp
      and original = "''../../etc/passwd''" and now = march_first
      and req = "upload_of ''../../etc/passwd.txt'' [1]" and env = quiet
      and fs = empty_disk and p = "''uploads/etc_passwd_20240301_100000.txt''"] v w
  show ?thesis by simp
qed

subsection \<open>Stem and extension of the stored name\<close>
















subsection \<open>Letter case of the stored extension\<close>

lemma report_extension:
  "splitext (secure_filename identity_decomp ''report.PDF'') = (''report'', ''.PDF'')"
  by code_simp

lemma upper_extension_not_allowed: "''PDF'' \<notin> ALLOWED_EXTENSIONS"
  by (simp add: ALLOWED_EXTENSIONS_def)

text \<open>
  Claim C10. When an accepted upload is stored, the name written to the disk and reported
  in the response ends with the extension of the sanitized name letter for letter; the
  lower-casing of \<open>allowed_file\<close> serves the membership test only. The witness stores
  \<open>.PDF\<close>, whose letters are not a member of the allowed extensions.
\<close>

theorem extension_case_preserved:
  assumes "content_length req \<le> MAX_CONTENT_LENGTH"
    and "files req ''file'' = Some f" and "allowed_file (part_filename f)"
    and "save_result env = Saved" and "stat_error env = None"
    and "splitext (secure_filename decomp (part_filename f)) = (stem, extension)"
  shows "stored_name (fst (upload_file decomp req now env fs)) =
           Some (stem @ ''_'' @ strftime now @ extension) \<and>
         suffix extension (stem @ ''_'' @ strftime now @ extension) \<and>
         isfile (snd (upload_file decomp req now env fs))
           (path_join UPLOAD_FOLDER (stem @ ''_'' @ strftime now @ extension))"
proof -
  from assms(6) have u: "unique_filename decomp (part_filename f) now =
      stem @ ''_'' @ strftime now @ extension"
    by (simp add: splitext_unfold)
  have "suffix extension (stem @ ''_'' @ strftime now @ extension)"
    by (simp add: suffix_def)
  with upload_saved [OF assms(2-5) assms(1), of decomp now fs] u show ?thesis
    by (simp add: stored_name_def isfile_def)
qed

theorem extension_case_preserved_witness:
  "stored_name (fst (upload_file identity_decomp report_request march_first quiet
      empty_disk)) = Some ''report_20240301_100000.PDF'' \<and>
   suffix ''.PDF'' ''report_20240301_100000.PDF'' \<and>
   isfile (snd (upload_file identity_decomp report_request march_first quiet empty_disk))
     ''uploads/report_20240301_100000.PDF'' \<and>
   allowed_file ''report.PDF'' \<and> ''PDF'' \<notin> ALLOWED_EXTENSIONS"
proof -
  have j: "path_join UPLOAD_FOLDER ''report_20240301_100000.PDF'' =
      ''uploads/report_20240301_100000.PDF''"
    by (simp add: path_join_def UPLOAD_FOLDER_def)
  from extension_case_preserved [where req = report_request
      and f = "\<lparr>part_filename = ''report.PDF'', part_stream = replicate 1024 0\<rparr>"
      and env = quiet and decomp = identity_decomp and now = march_first
      and fs = empty_disk and stem = "''report''" and extension = "''.PDF''"]
    report_allowed report_extension upper_extension_not_allowed j report_cap
  show ?thesis
    by (simp add: report_request_def march_first_token)
qed

end
